theory Spec2Isabelle
  imports Complex_Main
begin

section \<open>Python values and built-ins used by the three scripts\<close>

text \<open>
  The scripts are Python 2 programs with no exception handler: an exception raised in a
  loop body ends the script. Every raise is a value of \<open>py_error\<close> on the left of a sum.
  \<open>LibraryError\<close> stands for an exception raised inside a library call.
\<close>

datatype py_error =
    IndexError | ValueError | KeyError | TypeError | AttributeError
  | ZeroDivisionError | LibraryError string

definition bind_err :: "py_error + 'a \<Rightarrow> ('a \<Rightarrow> py_error + 'b) \<Rightarrow> py_error + 'b" where
  "bind_err r f = (case r of Inl e \<Rightarrow> Inl e | Inr v \<Rightarrow> f v)"

text \<open>
  Strings are lists of 8-bit characters. \<open>is_space\<close> is what \<open>str.strip()\<close> removes:
  tab, line feed, vertical tab, form feed, carriage return and space.
\<close>

definition TAB :: char where
  "TAB = CHR 0x09"

definition is_space :: "char \<Rightarrow> bool" where
  "is_space c = (c \<in> set [CHR 0x09, CHR 0x0A, CHR 0x0B, CHR 0x0C, CHR 0x0D, CHR 0x20])"

definition strip :: "string \<Rightarrow> string" where
  "strip s = rev (dropWhile is_space (rev (dropWhile is_space s)))"

text \<open>
  \<open>s.split(sep)\<close> for a non-empty separator: the pieces between the occurrences of
  \<open>sep\<close>, found from the left and not overlapping; empty pieces are kept. (Python raises
  ValueError for an empty separator; the scripts only pass the constants \<open>" "\<close>,
  \<open>"\t"\<close> and \<open>ARR_DELIM\<close>.)
\<close>

function split :: "string \<Rightarrow> string \<Rightarrow> string list" where
  "split sep [] = [[]]"
| "split sep (c # cs) =
     (if sep \<noteq> [] \<and> take (length sep) (c # cs) = sep
      then [] # split sep (drop (length sep) (c # cs))
      else (case split sep cs of
              [] \<Rightarrow> [[c]]
            | w # ws \<Rightarrow> (c # w) # ws))"
  by pat_completeness auto
termination
  by (relation "measure (\<lambda>(sep, s). length s)") (auto simp: Suc_le_eq)

text \<open>
  \<open>int(s)\<close> on a string, as the language reference has it: a possibly signed decimal
  number, possibly embedded in whitespace; anything else raises ValueError. Python 2
  integers are unbounded.
\<close>

definition digit_of :: "char \<Rightarrow> nat option" where
  "digit_of c = map_of (zip ''0123456789'' [0, 1, 2, 3, 4, 5, 6, 7, 8, 9]) c"

fun digits_value :: "nat \<Rightarrow> string \<Rightarrow> nat option" where
  "digits_value acc [] = Some acc"
| "digits_value acc (c # cs) =
     (case digit_of c of
        None \<Rightarrow> None
      | Some d \<Rightarrow> digits_value (10 * acc + d) cs)"

definition decimal :: "string \<Rightarrow> nat option" where
  "decimal s = (if s = [] then None else digits_value 0 s)"

definition int_of_str :: "string \<Rightarrow> py_error + int" where
  "int_of_str s =
     (let t = strip s;
          r = (case t of
                 [] \<Rightarrow> None
               | c # cs \<Rightarrow>
                   if c = CHR ''-'' then map_option (\<lambda>n. - int n) (decimal cs)
                   else if c = CHR ''+'' then map_option int (decimal cs)
                   else map_option int (decimal t))
      in case r of None \<Rightarrow> Inl ValueError | Some n \<Rightarrow> Inr n)"

text \<open>
  A value returned by \<open>json.loads\<close>. \<open>JFloat\<close> carries the exact value of a finite
  float. A dict is the list of its items, keys distinct.
\<close>

datatype json =
    JNull | JBool bool | JInt int | JFloat rat | JString string
  | JArray "json list" | JObject "(string \<times> json) list"

text \<open>
  A Python \<open>set\<close> is represented by the list of the elements added to it. Iterating
  the set yields each distinct element once, in an order the language does not fix: the
  order is a parameter \<open>iter\<close> of the models, and \<open>set_order iter\<close> says that it is an
  iteration order.
\<close>

definition set_order :: "('a list \<Rightarrow> 'a list) \<Rightarrow> bool" where
  "set_order iter = (\<forall>xs. distinct (iter xs) \<and> set (iter xs) = set xs)"

text \<open>
  \<open>for line in input: body\<close>, the body printing lines or raising: the lines printed up
  to the first exception, and that exception.
\<close>

fun for_each_line :: "('a \<Rightarrow> py_error + 'b list) \<Rightarrow> 'a list \<Rightarrow> 'b list \<times> py_error option" where
  "for_each_line body [] = ([], None)"
| "for_each_line body (l # ls) =
     (case body l of
        Inl e \<Rightarrow> ([], Some e)
      | Inr out \<Rightarrow> (case for_each_line body ls of (outs, r) \<Rightarrow> (out @ outs, r)))"

section \<open>examples/titles/udf/word_extractor.py\<close>

text \<open>
  \<open>title_id, title, has_entities = json.loads(line)\<close>: unpacking needs an iterable of
  exactly three items (a list; a string unpacks into its characters, a dict into its keys).
\<close>

definition unpack3 :: "json \<Rightarrow> py_error + (json \<times> json \<times> json)" where
  "unpack3 v =
     (let items = (case v of
                     JArray xs \<Rightarrow> Some xs
                   | JString s \<Rightarrow> Some (map (\<lambda>c. JString [c]) s)
                   | JObject kvs \<Rightarrow> Some (map (\<lambda>(k, x). JString k) kvs)
                   | _ \<Rightarrow> None)
      in case items of
           None \<Rightarrow> Inl TypeError
         | Some [a, b, c] \<Rightarrow> Inr (a, b, c)
         | Some _ \<Rightarrow> Inl ValueError)"

text \<open>\<open>int(x)\<close> on a JSON value.\<close>

definition py_int :: "json \<Rightarrow> py_error + int" where
  "py_int v =
     (case v of
        JInt n \<Rightarrow> Inr n
      | JBool b \<Rightarrow> Inr (if b then 1 else 0)
      | JFloat q \<Rightarrow> Inr (if 0 \<le> q then \<lfloor>q\<rfloor> else \<lceil>q\<rceil>)
      | JString s \<Rightarrow> int_of_str s
      | _ \<Rightarrow> Inl TypeError)"

text \<open>The value \<open>[int(title_id), word]\<close> that one \<open>print json.dumps(...)\<close> writes.\<close>

definition word_line :: "int \<Rightarrow> string \<Rightarrow> json" where
  "word_line n w = JArray [JInt n, JString w]"

text \<open>
  The loop body (lines 8 to 14) on the value \<open>json.loads\<close> returned. \<open>int(title_id)\<close>
  is evaluated in the inner loop, whose set is never empty, so a failing conversion
  raises before the first \<open>print\<close>.
\<close>

definition extract_words :: "(string list \<Rightarrow> string list) \<Rightarrow> json \<Rightarrow> py_error + json list" where
  "extract_words iter v =
     bind_err (unpack3 v) (\<lambda>(title_id, title, has_entities).
       case title of
         JNull \<Rightarrow> Inr []
       | JString t \<Rightarrow>
           bind_err (py_int title_id) (\<lambda>n. Inr (map (word_line n) (iter (split '' '' t))))
       | _ \<Rightarrow> Inl AttributeError)"

definition word_extractor :: "(string list \<Rightarrow> string list) \<Rightarrow> json list \<Rightarrow> json list \<times> py_error option" where
  "word_extractor iter vs = for_each_line (extract_words iter) vs"

text \<open>
  The words of a string delimited by whitespace, as the specification words it: the
  maximal runs of characters that are not whitespace (Python's \<open>s.split()\<close>).
\<close>

fun runs :: "string \<Rightarrow> string \<Rightarrow> string list" where
  "runs cur [] = (if cur = [] then [] else [rev cur])"
| "runs cur (c # cs) =
     (if is_space c then (if cur = [] then runs [] cs else rev cur # runs [] cs)
      else runs (c # cur) cs)"

definition whitespace_words :: "string \<Rightarrow> string list" where
  "whitespace_words s = runs [] s"

text \<open>\<open>sep.join(xs)\<close>, to state what the pieces of a split are.\<close>

fun join :: "string \<Rightarrow> string list \<Rightarrow> string" where
  "join sep [] = []"
| "join sep [x] = x"
| "join sep (x # y # ys) = x @ sep @ join sep (y # ys)"

text \<open>A title with a tab inside a word and two consecutive spaces.\<close>

definition tab_title :: string where
  "tab_title = ''a'' @ [TAB] @ ''b  c''"

text \<open>
  What an emitted list of lines must be for "exactly one line \<open>[n, w]\<close> per unique word
  of \<open>ws\<close>, in any order".
\<close>

definition one_line_per_word :: "int \<Rightarrow> string list \<Rightarrow> json list \<Rightarrow> bool" where
  "one_line_per_word n ws out = (distinct out \<and> set out = set (map (word_line n) ws))"

section \<open>examples/tutorial_example/step3-more-data/labeling/compute-recall.py\<close>

text \<open>
  Lines 18 to 29, on the two dicts that lines 8 to 15 build: \<open>labels\<close>, here the list of
  its items \<open>(key, entry)\<close> in the order the dict is iterated, and \<open>rid_exp\<close>, from
  relation id to expectation. A float is represented by the rational number it stands
  for. The literal \<open>0.9\<close> is the float nearest to 9/10, which lies just above 9/10
  with no float in between, so for a float \<open>x\<close> the test \<open>x >= 0.9\<close> is the test
  \<open>9/10 \<le> x\<close>. The quotient is the exact one: its rounding to a float and the
  rendering by \<open>%.3f\<close> are not modelled.

  \<open>v[k]\<close> on a JSON value: only a dict can be subscripted by a string, and a missing key
  raises KeyError.
\<close>

definition subscript :: "json \<Rightarrow> string \<Rightarrow> py_error + json" where
  "subscript v k =
     (case v of
        JObject kvs \<Rightarrow> (case map_of kvs k of None \<Rightarrow> Inl KeyError | Some x \<Rightarrow> Inr x)
      | _ \<Rightarrow> Inl TypeError)"

text \<open>\<open>v == True\<close>: true for \<open>True\<close> and for the numbers equal to one.\<close>

definition equals_True :: "json \<Rightarrow> bool" where
  "equals_True v = (case v of JBool b \<Rightarrow> b | JInt n \<Rightarrow> n = 1 | JFloat q \<Rightarrow> q = 1 | _ \<Rightarrow> False)"

text \<open>The two counters of the loop.\<close>

record counts =
  positive_correct :: int
  tot_correct :: int

text \<open>The body of \<open>for key in labels\<close> (lines 21 to 24) and the loop.\<close>

definition label_step :: "(string \<rightharpoonup> rat) \<Rightarrow> string \<times> json \<Rightarrow> counts \<Rightarrow> py_error + counts" where
  "label_step rid_exp item c =
     (case item of (key, entry) \<Rightarrow>
        bind_err (subscript entry ''is_correct'') (\<lambda>v.
          if equals_True v then
            (let c1 = c\<lparr>tot_correct := tot_correct c + 1\<rparr>
             in case rid_exp key of
                  None \<Rightarrow> Inl KeyError
                | Some expectation \<Rightarrow>
                    Inr (if expectation \<ge> 9 / 10
                         then c1\<lparr>positive_correct := positive_correct c1 + 1\<rparr>
                         else c1))
          else Inr c))"

fun label_loop :: "(string \<rightharpoonup> rat) \<Rightarrow> (string \<times> json) list \<Rightarrow> counts \<Rightarrow> py_error + counts" where
  "label_loop rid_exp [] c = Inr c"
| "label_loop rid_exp (item # rest) c =
     (case label_step rid_exp item c of
        Inl e \<Rightarrow> Inl e
      | Inr c' \<Rightarrow> label_loop rid_exp rest c')"

text \<open>
  The four \<open>print\<close> statements, each line represented by the value it formats. The
  division \<open>positive_correct / float(tot_correct)\<close> raises ZeroDivisionError when the
  divisor is zero, after the first three lines are printed.
\<close>

datatype report_line = Labels int | TruePositive int | FalseNegative int | Recall rat

definition compute_recall :: "(string \<times> json) list \<Rightarrow> (string \<rightharpoonup> rat) \<Rightarrow> report_line list \<times> py_error option" where
  "compute_recall labels rid_exp =
     (case label_loop rid_exp labels \<lparr>positive_correct = 0, tot_correct = 0\<rparr> of
        Inl e \<Rightarrow> ([], Some e)
      | Inr c \<Rightarrow>
          (let printed = [Labels (int (length labels)),
                          TruePositive (positive_correct c),
                          FalseNegative (tot_correct c - positive_correct c)]
           in if tot_correct c = 0 then (printed, Some ZeroDivisionError)
              else (printed @ [Recall (of_int (positive_correct c) / of_int (tot_correct c))], None)))"

text \<open>
  The quantities the specification names: a label is correct, its expectation is at
  least or below 0.9, the true positives and the false negatives; \<open>joined\<close> says that
  every entry has the field \<open>is_correct\<close> and every correct label has an expectation.
\<close>

definition label_correct :: "json \<Rightarrow> bool" where
  "label_correct entry =
     (case subscript entry ''is_correct'' of Inl e \<Rightarrow> False | Inr v \<Rightarrow> equals_True v)"

definition expectation_at_least :: "(string \<rightharpoonup> rat) \<Rightarrow> string \<Rightarrow> bool" where
  "expectation_at_least rid_exp key = (case rid_exp key of None \<Rightarrow> False | Some x \<Rightarrow> x \<ge> 9 / 10)"

definition expectation_below :: "(string \<rightharpoonup> rat) \<Rightarrow> string \<Rightarrow> bool" where
  "expectation_below rid_exp key = (case rid_exp key of None \<Rightarrow> False | Some x \<Rightarrow> x < 9 / 10)"

definition true_positives :: "(string \<times> json) list \<Rightarrow> (string \<rightharpoonup> rat) \<Rightarrow> int" where
  "true_positives labels rid_exp =
     int (length (filter (\<lambda>(key, entry). label_correct entry \<and> expectation_at_least rid_exp key) labels))"

definition false_negatives :: "(string \<times> json) list \<Rightarrow> (string \<rightharpoonup> rat) \<Rightarrow> int" where
  "false_negatives labels rid_exp =
     int (length (filter (\<lambda>(key, entry). label_correct entry \<and> expectation_below rid_exp key) labels))"

definition joined :: "(string \<times> json) list \<Rightarrow> (string \<rightharpoonup> rat) \<Rightarrow> bool" where
  "joined labels rid_exp =
     list_all (\<lambda>(key, entry). (case subscript entry ''is_correct'' of
                                 Inl e \<Rightarrow> False
                               | Inr v \<Rightarrow> equals_True v \<longrightarrow> rid_exp key \<noteq> None)) labels"

text \<open>A report whose label count is one higher.\<close>

fun one_more_label :: "report_line \<Rightarrow> report_line" where
  "one_more_label (Labels n) = Labels (n + 1)"
| "one_more_label l = l"

text \<open>Every entry has the field \<open>is_correct\<close>, and none is equal to \<open>True\<close>.\<close>

definition no_label_correct :: "(string \<times> json) list \<Rightarrow> bool" where
  "no_label_correct labels =
     list_all (\<lambda>(key, entry). (case subscript entry ''is_correct'' of
                                 Inl e \<Rightarrow> False
                               | Inr v \<Rightarrow> \<not> equals_True v)) labels"

section \<open>udf/ext_has_spouse_features.py\<close>

definition ARR_DELIM :: string where
  "ARR_DELIM = ''~^~''"

text \<open>
  Modelled from the spec: the three functions of \<open>ddlib\<close> that the loop calls. The
  library is not among the source files, so the functions are parameters of the model:
  \<open>get_sentence\<close> (the Sentence Model Builder), \<open>Span\<close> (the Span Resolver, called with
  a begin word index and a length only) and \<open>get_generic_features_relation\<close> (the
  Feature Generator), each returning a value or raising. As the specification's design
  rules have it, a call's result is a function of its arguments and of the dictionaries
  that lines 10 and 11 load before the first row is read; \<open>dd\<close> stands for the library
  with these dictionaries loaded. \<open>'s\<close> is the type of sentences, \<open>'p\<close> of spans.
\<close>

record ('s, 'p) ddlib =
  get_sentence :: "int list \<Rightarrow> int list \<Rightarrow> string list \<Rightarrow> string list \<Rightarrow> string list \<Rightarrow>
                   string list \<Rightarrow> string list \<Rightarrow> py_error + 's"
  Span :: "int \<Rightarrow> int \<Rightarrow> py_error + 'p"
  get_generic_features_relation :: "'s \<Rightarrow> 'p \<Rightarrow> 'p \<Rightarrow> py_error + string list"

text \<open>The ten variables that lines 18 to 24 assign from the fields of a row.\<close>

record row_fields =
  words :: "string list"
  lemmata :: "string list"
  poses :: "string list"
  dependencies :: "string list"
  ners :: "string list"
  relation_id :: string
  p1_start :: int
  p1_length :: int
  p2_start :: int
  p2_length :: int

text \<open>\<open>xs[i]\<close> for an index that is not negative.\<close>

definition item :: "'a list \<Rightarrow> nat \<Rightarrow> py_error + 'a" where
  "item xs i = (if i < length xs then Inr (xs ! i) else Inl IndexError)"

text \<open>\<open>[int(x) for x in xs]\<close>: the first conversion that fails raises.\<close>

fun ints :: "string list \<Rightarrow> py_error + int list" where
  "ints [] = Inr []"
| "ints (x # xs) =
     (case int_of_str x of
        Inl e \<Rightarrow> Inl e
      | Inr n \<Rightarrow> (case ints xs of Inl e \<Rightarrow> Inl e | Inr ns \<Rightarrow> Inr (n # ns)))"

text \<open>
  Lines 15 to 24. The fields are read in order, so a row with fewer than six fields
  raises IndexError at the first missing one; the four offsets are converted before they
  are unpacked, and both a failing conversion and a number of them other than four raise
  ValueError.
\<close>

definition parse_row :: "string \<Rightarrow> py_error + row_fields" where
  "parse_row row =
     (let parts = split [TAB] (strip row) in
      bind_err (item parts 0) (\<lambda>f0.
      bind_err (item parts 1) (\<lambda>f1.
      bind_err (item parts 2) (\<lambda>f2.
      bind_err (item parts 3) (\<lambda>f3.
      bind_err (item parts 4) (\<lambda>f4.
      bind_err (item parts 5) (\<lambda>f5.
      bind_err (ints (drop 6 parts)) (\<lambda>ns.
        case ns of
          [a, b, c, d] \<Rightarrow>
            Inr \<lparr>words = split ARR_DELIM f0, lemmata = split ARR_DELIM f1,
                 poses = split ARR_DELIM f2, dependencies = split ARR_DELIM f3,
                 ners = split ARR_DELIM f4, relation_id = f5,
                 p1_start = a, p1_length = b, p2_start = c, p2_length = d\<rparr>
        | _ \<Rightarrow> Inl ValueError))))))))"

text \<open>
  Lines 15 to 39: the relation id of the row and the features that the generator
  yields, or the first exception raised on the way.
\<close>

definition row_features :: "('s, 'p) ddlib \<Rightarrow> string \<Rightarrow> py_error + (string \<times> string list)" where
  "row_features dd row =
     bind_err (parse_row row) (\<lambda>r.
     bind_err (get_sentence dd (replicate (length (words r)) 0) (replicate (length (words r)) 0)
                 (words r) (lemmata r) (poses r) (dependencies r) (ners r)) (\<lambda>sentence.
     bind_err (Span dd (p1_start r) (p1_length r)) (\<lambda>span1.
     bind_err (Span dd (p2_start r) (p2_length r)) (\<lambda>span2.
     bind_err (get_generic_features_relation dd sentence span1 span2) (\<lambda>generated.
       Inr (relation_id r, generated))))))"

text \<open>\<open>features.add(feature)\<close> on the representation of a set, and one printed line.\<close>

definition add :: "string list \<Rightarrow> string \<Rightarrow> string list" where
  "add s x = s @ [x]"

definition feature_line :: "string \<Rightarrow> string \<Rightarrow> string" where
  "feature_line rid feature = rid @ [TAB] @ feature"

text \<open>
  The loop body with the variable that it accumulates into. A Python variable outlives
  the iteration that assigned it, so the body receives the variables as the rows before
  left them; line 36 assigns \<open>features\<close> a new empty set. The lines are printed after
  the generator is exhausted, so a row that raises prints nothing.
\<close>

record loop_vars =
  features :: "string list"

definition loop_body ::
  "('s, 'p) ddlib \<Rightarrow> (string list \<Rightarrow> string list) \<Rightarrow> string \<Rightarrow> loop_vars \<Rightarrow>
     py_error + (loop_vars \<times> string list)" where
  "loop_body dd iter row vars =
     bind_err (row_features dd row) (\<lambda>(rid, generated).
       let vars1 = vars\<lparr>features := []\<rparr>;
           vars2 = vars1\<lparr>features := fold (\<lambda>feature s. add s feature) generated (features vars1)\<rparr>
       in Inr (vars2, map (feature_line rid) (iter (features vars2))))"



text \<open>
  An instance of the parameters, to run the loop on concrete rows: a sentence is the
  list of its words, a span the pair given, and there is one feature per word, so that a
  repeated word gives a repeated feature. It stands for no rule of the real generator.
\<close>

definition ddlib_words :: "(string list, int \<times> int) ddlib" where
  "ddlib_words =
     \<lparr>get_sentence = (\<lambda>bs es ws ls ps ds ns. Inr ws),
      Span = (\<lambda>b l. Inr (b, l)),
      get_generic_features_relation = (\<lambda>s p1 p2. Inr (map (\<lambda>w. ''WORD_'' @ w) s))\<rparr>"



text \<open>
  Three rows: a well-formed one, one whose second offset is not a number, and one with
  two fields.
\<close>

definition example_row :: string where
  "example_row =
     ''John~^~married~^~John'' @ [TAB] @ ''John~^~marry~^~John'' @ [TAB] @ ''NNP~^~VBD~^~NNP'' @ [TAB] @
     ''nsubj~^~root~^~dobj'' @ [TAB] @ ''PERSON~^~O~^~PERSON'' @ [TAB] @ ''r1'' @ [TAB] @
     ''0'' @ [TAB] @ ''1'' @ [TAB] @ ''2'' @ [TAB] @ ''1'' @ [CHR 0x0A]"



text \<open>
  Two executions of the loop body have the same outcome: the same exception, or the same
  set of features and the same set of printed lines.
\<close>

definition same_outcome ::
  "py_error + (loop_vars \<times> string list) \<Rightarrow> py_error + (loop_vars \<times> string list) \<Rightarrow> bool" where
  "same_outcome a b =
     (case a of
        Inl e1 \<Rightarrow> (case b of Inl e2 \<Rightarrow> e1 = e2 | Inr y \<Rightarrow> False)
      | Inr (v1, out1) \<Rightarrow>
          (case b of
             Inl e2 \<Rightarrow> False
           | Inr (v2, out2) \<Rightarrow> set (features v1) = set (features v2) \<and> set out1 = set out2))"

section \<open>The Sentence Model Builder and the Span Resolver of the specification\<close>

text \<open>The three per-record errors of the specification's taxonomy.\<close>

datatype spec_error = MalformedInputError | SpanOutOfRangeError | SpanEmptyError

text \<open>A token as the specification's data model has it.\<close>

record Token =
  tokenText :: string
  tokenLemma :: string
  partOfSpeech :: string
  dependencyLabel :: string
  namedEntityTag :: string
  positionIndex :: nat

text \<open>
  Modelled from the spec: the Sentence Model Builder (\<open>ddlib.get_sentence\<close>, which is not
  among the source files). Its inputs are the five annotation sequences and the two
  numeric arrays, each present or absent; it fails with \<open>MalformedInputError\<close> if a
  sequence is absent or the lengths disagree, and otherwise builds one token per
  position.
\<close>

definition BuildSentence ::
  "string list option \<Rightarrow> string list option \<Rightarrow> string list option \<Rightarrow> string list option \<Rightarrow>
   string list option \<Rightarrow> int list option \<Rightarrow> int list option \<Rightarrow> spec_error + Token list" where
  "BuildSentence ws ls ps ds ns hs1 hs2 =
     (case (ws, ls, ps, ds, ns, hs1, hs2) of
        (Some w, Some l, Some p, Some d, Some n, Some h1, Some h2) \<Rightarrow>
          if length l = length w \<and> length p = length w \<and> length d = length w \<and>
             length n = length w \<and> length h1 = length w \<and> length h2 = length w
          then Inr (map (\<lambda>i. \<lparr>tokenText = w ! i, tokenLemma = l ! i, partOfSpeech = p ! i,
                               dependencyLabel = d ! i, namedEntityTag = n ! i,
                               positionIndex = i\<rparr>) [0..<length w])
          else Inl MalformedInputError
      | _ \<Rightarrow> Inl MalformedInputError)"

text \<open>A span as the specification's data model has it.\<close>

record SpanValue =
  beginIndex :: int
  spanLength :: int

text \<open>
  Modelled from the spec: the Span Resolver (\<open>ddlib.Span\<close>, which is not among the source
  files). Each mention's begin offset and length are validated against the constraints
  of the data model (\<open>beginIndex >= 0\<close>, \<open>length > 0\<close>,
  \<open>beginIndex + length <=\<close> sentence length). The specification names
  \<open>SpanOutOfRangeError\<close> for a span that leaves the sentence and \<open>SpanEmptyError\<close> for a
  length that is not strictly positive, each whenever its condition holds, so a failure
  carries every error whose condition holds. The spans returned hold the offsets as
  given.
\<close>

definition span_violations :: "nat \<Rightarrow> int \<Rightarrow> int \<Rightarrow> spec_error list" where
  "span_violations sentenceLength b l =
     (if b < 0 \<or> b + l > int sentenceLength then [SpanOutOfRangeError] else []) @
     (if l \<le> 0 then [SpanEmptyError] else [])"

definition ResolveSpans ::
  "nat \<Rightarrow> int \<Rightarrow> int \<Rightarrow> int \<Rightarrow> int \<Rightarrow> spec_error list + (SpanValue \<times> SpanValue)" where
  "ResolveSpans sentenceLength b1 l1 b2 l2 =
     (let errors = span_violations sentenceLength b1 l1 @ span_violations sentenceLength b2 l2
      in if errors = []
         then Inr (\<lparr>beginIndex = b1, spanLength = l1\<rparr>, \<lparr>beginIndex = b2, spanLength = l2\<rparr>)
         else Inl errors)"

text \<open>A resolution fails with an error; a span is in range with a positive length.\<close>

definition fails_with :: "spec_error list + 'a \<Rightarrow> spec_error \<Rightarrow> bool" where
  "fails_with r e = (case r of Inl errors \<Rightarrow> e \<in> set errors | Inr v \<Rightarrow> False)"

definition in_range :: "nat \<Rightarrow> int \<Rightarrow> int \<Rightarrow> bool" where
  "in_range sentenceLength b l = (0 \<le> b \<and> 0 < l \<and> b + l \<le> int sentenceLength)"

section \<open>Properties of the built-ins\<close>

lemma split_nonempty: "split sep s \<noteq> []"
  by (induction sep s rule: split.induct) (auto split: list.splits)

lemma split_char_append: "split [c] (a @ c # b) = split [c] a @ split [c] b"
  using split_nonempty[of "[c]"] 
  by (induction a) (auto split: list.splits)

lemma split_char_absent: "c \<notin> set s \<Longrightarrow> split [c] s = [s]"
  by (induction s) (auto split: list.splits)

lemma set_order_singleton: "set_order iter \<Longrightarrow> iter [x] = [x]"
proof -
  assume "set_order iter"
  then have d: "distinct (iter [x])" and s: "set (iter [x]) = {x}"
    by (simp_all add: set_order_def)
  show ?thesis
  proof (cases "iter [x]")
    case Nil
    with s show ?thesis by simp
  next
    case (Cons y ys)
    with d s have "y = x" "set ys \<subseteq> {x}" "y \<notin> set ys" by auto
    then have "ys = []" by (cases ys) auto
    with Cons \<open>y = x\<close> show ?thesis by simp
  qed
qed

lemma join_cons_char: "join sep ((x # w) # ws) = x # join sep (w # ws)"
  by (cases ws) simp_all

lemma join_split_char: "join [c] (split [c] s) = s"
proof (induction s)
  case Nil
  show ?case by simp
next
  case (Cons x xs)
  obtain w ws where p: "split [c] xs = w # ws"
    using split_nonempty [of "[c]" xs] by (cases "split [c] xs") auto
  show ?case
  proof (cases "x = c")
    case True
    with Cons p show ?thesis by simp
  next
    case False
    with Cons p show ?thesis by (simp add: join_cons_char)
  qed
qed

lemma split_char_pieces: "w \<in> set (split [c] s) \<Longrightarrow> c \<notin> set w"
proof (induction s arbitrary: w)
  case Nil
  then show ?case by simp
next
  case (Cons x xs)
  obtain v vs where p: "split [c] xs = v # vs"
    using split_nonempty [of "[c]" xs] by (cases "split [c] xs") auto
  show ?case
  proof (cases "x = c")
    case True
    with Cons show ?thesis by auto
  next
    case False
    with Cons.prems p have "w = x # v \<or> w \<in> set vs" by simp
    moreover have "c \<notin> set v" using Cons.IH [of v] p by simp
    moreover have "w \<in> set vs \<Longrightarrow> c \<notin> set w" using Cons.IH [of w] p by simp
    ultimately show ?thesis using False by auto
  qed
qed

lemma split_char_run:
  assumes "c \<notin> set u"
      and "pre = [] \<or> last pre = c"
      and "post = [] \<or> hd post = c"
  shows "u \<in> set (split [c] (pre @ u @ post))"
proof -
  have tail: "u \<in> set (split [c] (u @ post))"
  proof (cases post)
    case Nil
    with assms(1) show ?thesis by (simp add: split_char_absent)
  next
    case (Cons y ys)
    with assms(3) have "post = c # ys" by simp
    then show ?thesis
      using split_char_append [of c u ys] assms(1) by (simp add: split_char_absent)
  qed
  show ?thesis
  proof (cases "pre = []")
    case True
    with tail show ?thesis by simp
  next
    case False
    with assms(2) have "pre = butlast pre @ [c]"
      using append_butlast_last_id [of pre] by simp
    then obtain q where q: "pre = q @ [c]" ..
    have "split [c] (q @ c # (u @ post)) = split [c] q @ split [c] (u @ post)"
      by (rule split_char_append)
    with tail show ?thesis by (simp add: q)
  qed
qed


section \<open>The word extractor\<close>

lemma inj_word_line: "inj (word_line n)"
  by (simp add: inj_on_def word_line_def)

lemma extract_words_string:
  "extract_words iter (JArray [title_id, JString t, h]) =
     (case py_int title_id of Inl e \<Rightarrow> Inl e
      | Inr n \<Rightarrow> Inr (map (word_line n) (iter (split '' '' t))))"
  by (simp add: extract_words_def unpack3_def bind_err_def split: sum.splits)

lemma extract_words_null: "extract_words iter (JArray [title_id, JNull, h]) = Inr []"
  by (simp add: extract_words_def unpack3_def bind_err_def)

text \<open>
  Claim C8, as the code has it. For an input line \<open>[title_id, title, has_entities]\<close>:
  a null title emits no line, whatever \<open>title_id\<close> is; a string title emits exactly one
  line \<open>[int(title_id), w]\<close> per unique piece \<open>w\<close> of \<open>title.split(" ")\<close>, in whatever
  order the set is iterated, when \<open>int(title_id)\<close> succeeds, and raises its exception
  before any line otherwise.
\<close>

theorem extract_words_lines:
  assumes "set_order iter"
  shows "extract_words iter (JArray [title_id, JNull, h]) = Inr [] \<and>
         (case py_int title_id of
            Inl e \<Rightarrow> extract_words iter (JArray [title_id, JString t, h]) = Inl e
          | Inr n \<Rightarrow> (\<exists>out. extract_words iter (JArray [title_id, JString t, h]) = Inr out \<and>
                      one_line_per_word n (split '' '' t) out))"
proof -
  have d: "distinct (iter (split '' '' t))" and s: "set (iter (split '' '' t)) = set (split '' '' t)"
    using assms by (simp_all add: set_order_def)
  show ?thesis
    using d s by (simp add: extract_words_string extract_words_null one_line_per_word_def
        distinct_map inj_word_line[THEN inj_on_subset] split: sum.splits)
qed

text \<open>The specification's example \<open>[1, "The Quick Fox", true]\<close>, and a null title.\<close>

theorem extract_words_lines_witness:
  "set_order (remdups :: string list \<Rightarrow> string list) \<and>
   extract_words remdups (JArray [JInt 1, JNull, JBool True]) = Inr [] \<and>
   (\<exists>out. extract_words remdups (JArray [JInt 1, JString ''The Quick Fox'', JBool True]) = Inr out \<and>
       one_line_per_word 1 [''The'', ''Quick'', ''Fox''] out)"
proof -
  have h: "set_order (remdups :: string list \<Rightarrow> string list)" by (simp add: set_order_def)
  show ?thesis
    using h extract_words_lines [OF h, of "JInt 1" "JBool True" "''The Quick Fox''"]
    by (simp add: py_int_def)
qed

text \<open>
  Claim C8 as stated (one line per unique whitespace-delimited word) fails on the title
  \<open>"a  b"\<close>: its whitespace-delimited words are \<open>a\<close> and \<open>b\<close>, and the extractor emits
  three lines, one of them for the empty string between the two spaces.
\<close>

theorem extract_words_whitespace_counterexample:
  "extract_words remdups (JArray [JInt 1, JString ''a  b'', JBool True]) =
     Inr [word_line 1 ''a'', word_line 1 [], word_line 1 ''b''] \<and>
   \<not> one_line_per_word 1 (whitespace_words ''a  b'') [word_line 1 ''a'', word_line 1 [], word_line 1 ''b'']"
proof -
  have "extract_words remdups (JArray [JInt 1, JString ''a  b'', JBool True]) =
     Inr [word_line 1 ''a'', word_line 1 [], word_line 1 ''b'']"
    by (simp add: extract_words_string py_int_def)
  moreover have "whitespace_words ''a  b'' = [''a'', ''b'']"
    by (simp add: whitespace_words_def is_space_def)
  moreover have "\<not> one_line_per_word 1 [''a'', ''b''] [word_line 1 ''a'', word_line 1 [], word_line 1 ''b'']"
  proof
    assume "one_line_per_word 1 [''a'', ''b''] [word_line 1 ''a'', word_line 1 [], word_line 1 ''b'']"
    then have "set [word_line 1 ''a'', word_line 1 [], word_line 1 ''b''] =
               set (map (word_line 1) [''a'', ''b''])"
      by (simp only: one_line_per_word_def)
    moreover have "word_line 1 [] \<in> set [word_line 1 ''a'', word_line 1 [], word_line 1 ''b'']"
      by simp
    ultimately have "word_line 1 [] \<in> set (map (word_line 1) [''a'', ''b''])"
      by (simp only:)
    then show False by (simp add: word_line_def)
  qed
  ultimately show ?thesis by (simp only: simp_thms)
qed

text \<open>
  Claim C9. The title is split at the single space character only. The lines emitted are
  exactly the lines \<open>[int(title_id), w]\<close> for the pieces \<open>w\<close> of \<open>title.split(" ")\<close>. A
  title with a leading space, a trailing space or two consecutive spaces has the empty
  string among its pieces, and the line \<open>[int(title_id), ""]\<close> is emitted for it. No
  piece contains a space, and the pieces joined by single spaces are the title again, so
  nothing but a space separates two pieces: every run of characters without a space that
  is delimited by spaces or the ends of the title, whatever tabs or other whitespace it
  holds, is one piece and is emitted whole.
\<close>

theorem extract_words_single_space:
  assumes "set_order iter" and "py_int title_id = Inr n"
  shows "(\<exists>out. extract_words iter (JArray [title_id, JString t, h]) = Inr out \<and>
              set out = (\<lambda>w. JArray [JInt n, JString w]) ` set (split '' '' t)) \<and>
         ((t = '' '' @ b \<or> t = a @ '' '' \<or> t = a @ ''  '' @ b) \<longrightarrow>
            [] \<in> set (split '' '' t) \<and>
            (\<exists>out. extract_words iter (JArray [title_id, JString t, h]) = Inr out \<and>
                   JArray [JInt n, JString []] \<in> set out)) \<and>
         (\<forall>w \<in> set (split '' '' t). CHR '' '' \<notin> set w) \<and>
         join '' '' (split '' '' t) = t \<and>
         ((t = pre @ u @ post \<and> CHR '' '' \<notin> set u \<and> (pre = [] \<or> last pre = CHR '' '') \<and>
           (post = [] \<or> hd post = CHR '' '')) \<longrightarrow>
            u \<in> set (split '' '' t) \<and>
            (\<exists>out. extract_words iter (JArray [title_id, JString t, h]) = Inr out \<and>
                   JArray [JInt n, JString u] \<in> set out))"
proof -
  have s: "set (iter (split '' '' t)) = set (split '' '' t)"
    using assms(1) by (simp add: set_order_def)
  have e: "extract_words iter (JArray [title_id, JString t, h]) =
             Inr (map (word_line n) (iter (split '' '' t)))"
    using assms(2) by (simp add: extract_words_string)
  have w: "word_line n = (\<lambda>w. JArray [JInt n, JString w])"
    by (rule ext) (simp add: word_line_def)
  have lines: "set (map (word_line n) (iter (split '' '' t))) =
                 (\<lambda>w. JArray [JInt n, JString w]) ` set (split '' '' t)"
    by (simp add: s w)
  have emitted: "\<exists>out. extract_words iter (JArray [title_id, JString t, h]) = Inr out \<and>
                   JArray [JInt n, JString v] \<in> set out"
    if "v \<in> set (split '' '' t)" for v
    using that e lines by blast
  have 1: "[] \<in> set (split '' '' t)" if "t = '' '' @ b \<or> t = a @ '' '' \<or> t = a @ ''  '' @ b"
  proof -
    have "split '' '' ('' '' @ b) = [] # split '' '' b" by simp
    moreover have "split '' '' (a @ '' '') = split '' '' a @ [[]]"
      using split_char_append [of "CHR '' ''" a "[]"] by simp
    moreover have "split '' '' (a @ ''  '' @ b) = split '' '' a @ [] # split '' '' b"
      using split_char_append [of "CHR '' ''" a "CHR '' '' # b"] by simp
    ultimately show ?thesis using that by auto
  qed
  have 2: "u \<in> set (split '' '' t)"
    if "t = pre @ u @ post \<and> CHR '' '' \<notin> set u \<and> (pre = [] \<or> last pre = CHR '' '') \<and>
        (post = [] \<or> hd post = CHR '' '')"
    using that split_char_run [of "CHR '' ''" u pre post] by simp
  show ?thesis
  proof (intro conjI impI ballI)
    show "\<exists>out. extract_words iter (JArray [title_id, JString t, h]) = Inr out \<and>
              set out = (\<lambda>w. JArray [JInt n, JString w]) ` set (split '' '' t)"
      using e lines by blast
  next
    assume c: "t = '' '' @ b \<or> t = a @ '' '' \<or> t = a @ ''  '' @ b"
    show "[] \<in> set (split '' '' t)" by (rule 1 [OF c])
    show "\<exists>out. extract_words iter (JArray [title_id, JString t, h]) = Inr out \<and>
                JArray [JInt n, JString []] \<in> set out"
      by (rule emitted [OF 1 [OF c]])
  next
    fix v assume "v \<in> set (split '' '' t)"
    then show "CHR '' '' \<notin> set v" by (rule split_char_pieces)
  next
    show "join '' '' (split '' '' t) = t" by (rule join_split_char)
  next
    assume c: "t = pre @ u @ post \<and> CHR '' '' \<notin> set u \<and> (pre = [] \<or> last pre = CHR '' '') \<and>
           (post = [] \<or> hd post = CHR '' '')"
    show "u \<in> set (split '' '' t)" by (rule 2 [OF c])
    show "\<exists>out. extract_words iter (JArray [title_id, JString t, h]) = Inr out \<and>
                JArray [JInt n, JString u] \<in> set out"
      by (rule emitted [OF 2 [OF c]])
  qed
qed

text \<open>The title \<open>a<TAB>b  c\<close>: the pieces are \<open>a<TAB>b\<close>, the empty string and \<open>c\<close>.\<close>

theorem extract_words_single_space_witness:
  "set_order (remdups :: string list \<Rightarrow> string list) \<and> py_int (JInt 7) = Inr 7 \<and>
   split '' '' tab_title = [''a'' @ [TAB] @ ''b'', [], ''c''] \<and>
   (\<exists>out. extract_words remdups (JArray [JInt 7, JString tab_title, JBool True]) = Inr out \<and>
          JArray [JInt 7, JString []] \<in> set out) \<and>
   (\<exists>out. extract_words remdups (JArray [JInt 7, JString tab_title, JBool True]) = Inr out \<and>
          JArray [JInt 7, JString (''a'' @ [TAB] @ ''b'')] \<in> set out) \<and>
   join '' '' (split '' '' tab_title) = tab_title"
proof -
  have h: "set_order (remdups :: string list \<Rightarrow> string list)" by (simp add: set_order_def)
  have i: "py_int (JInt 7) = Inr 7" by (simp add: py_int_def)
  have p: "split '' '' tab_title = [''a'' @ [TAB] @ ''b'', [], ''c'']"
    by (simp add: tab_title_def TAB_def)
  have d: "tab_title = (''a'' @ [TAB] @ ''b'') @ ''  '' @ ''c''"
    by (simp add: tab_title_def)
  have r: "tab_title = [] @ (''a'' @ [TAB] @ ''b'') @ ''  c'' \<and>
           CHR '' '' \<notin> set (''a'' @ [TAB] @ ''b'') \<and>
           (([] :: string) = [] \<or> last [] = CHR '' '') \<and> (''  c'' = [] \<or> hd ''  c'' = CHR '' '')"
    by (simp add: tab_title_def TAB_def)
  note t = extract_words_single_space [OF h i, of tab_title "JBool True" "''c''" "''a'' @ [TAB] @ ''b''"
      "[]" "''a'' @ [TAB] @ ''b''" "''  c''"]
  have e: "\<exists>out. extract_words remdups (JArray [JInt 7, JString tab_title, JBool True]) = Inr out \<and>
          JArray [JInt 7, JString []] \<in> set out"
    using t d by blast
  have u: "\<exists>out. extract_words remdups (JArray [JInt 7, JString tab_title, JBool True]) = Inr out \<and>
          JArray [JInt 7, JString (''a'' @ [TAB] @ ''b'')] \<in> set out"
    using t r by blast
  have j: "join '' '' (split '' '' tab_title) = tab_title"
    using t by blast
  show ?thesis by (intro conjI h i p e u j)
qed

section \<open>The recall evaluator\<close>

lemma label_loop_counts:
  "joined labels rid_exp \<Longrightarrow>
   label_loop rid_exp labels c =
     Inr (c\<lparr>positive_correct := positive_correct c + true_positives labels rid_exp,
           tot_correct := tot_correct c + true_positives labels rid_exp + false_negatives labels rid_exp\<rparr>)"
proof (induction labels arbitrary: c)
  case Nil
  then show ?case by (simp add: true_positives_def false_negatives_def)
next
  case (Cons item rest)
  obtain key entry where item: "item = (key, entry)" by (cases item)
  from Cons.prems have j: "joined rest rid_exp" by (simp add: joined_def)
  from Cons.prems item obtain v where v: "subscript entry ''is_correct'' = Inr v"
    and x: "equals_True v \<longrightarrow> rid_exp key \<noteq> None"
    by (auto simp: joined_def split: sum.splits)
  show ?case
  proof (cases "equals_True v")
    case False
    with v item show ?thesis
      by (simp add: Cons.IH [OF j] label_step_def bind_err_def true_positives_def
          false_negatives_def label_correct_def)
  next
    case True
    with x obtain e where e: "rid_exp key = Some e" by auto
    with True v item show ?thesis
      by (simp add: Cons.IH [OF j] label_step_def bind_err_def true_positives_def
          false_negatives_def label_correct_def expectation_at_least_def expectation_below_def)
  qed
qed


lemma no_label_correct_joined: "no_label_correct labels \<Longrightarrow> joined labels rid_exp"
  by (induction labels) (auto simp: no_label_correct_def joined_def split: sum.splits)

lemma not_label_correct:
  "(case subscript entry ''is_correct'' of Inl e \<Rightarrow> False | Inr v \<Rightarrow> \<not> equals_True v) \<Longrightarrow>
   \<not> label_correct entry"
  by (cases "subscript entry ''is_correct''") (simp_all add: label_correct_def)

lemma no_label_correct_counts:
  "no_label_correct labels \<Longrightarrow>
   true_positives labels rid_exp = 0 \<and> false_negatives labels rid_exp = 0"
proof -
  assume "no_label_correct labels"
  then have "\<forall>(key, entry) \<in> set labels. \<not> label_correct entry"
    by (auto simp: no_label_correct_def list_all_iff dest: not_label_correct)
  then have "filter (\<lambda>(key, entry). label_correct entry \<and> P key) labels = []" for P
    by (auto simp: filter_empty_conv)
  then show ?thesis
    by (simp add: true_positives_def false_negatives_def)
qed

lemma label_loop_append:
  "label_loop rid_exp (xs @ ys) c =
     (case label_loop rid_exp xs c of Inl e \<Rightarrow> Inl e | Inr c' \<Rightarrow> label_loop rid_exp ys c')"
  by (induction xs arbitrary: c) (auto split: sum.splits)

lemma label_step_not_True:
  "subscript entry ''is_correct'' = Inr v \<Longrightarrow> \<not> equals_True v \<Longrightarrow>
   label_step rid_exp (key, entry) c = Inr c"
  by (simp add: label_step_def bind_err_def)

text \<open>
  Claim C7. Over joined label and expectation records with at least one correct label,
  the evaluator prints the number of labels, the true positives (labels that are correct
  and have expectation at least 0.9), the false negatives (correct and expectation
  below 0.9) and the recall, true positives divided by true positives plus false
  negatives.
\<close>

theorem compute_recall_counts:
  assumes "joined labels rid_exp"
      and "0 < true_positives labels rid_exp + false_negatives labels rid_exp"
  shows "compute_recall labels rid_exp =
           ([Labels (int (length labels)),
             TruePositive (true_positives labels rid_exp),
             FalseNegative (false_negatives labels rid_exp),
             Recall (of_int (true_positives labels rid_exp) /
                     of_int (true_positives labels rid_exp + false_negatives labels rid_exp))],
            None)"
  using assms(2)
  by (simp add: compute_recall_def label_loop_counts [OF assms(1)] Let_def)

text \<open>
  The specification's example: two correct labels with expectations 0.95 and 0.80 give
  one true positive, one false negative and recall 1/2.
\<close>

theorem compute_recall_counts_witness:
  "joined [(''r1'', JObject [(''is_correct'', JBool True)]),
           (''r2'', JObject [(''is_correct'', JBool True)])]
          [''r1'' \<mapsto> 95 / 100, ''r2'' \<mapsto> 80 / 100] \<and>
   compute_recall [(''r1'', JObject [(''is_correct'', JBool True)]),
                   (''r2'', JObject [(''is_correct'', JBool True)])]
                  [''r1'' \<mapsto> 95 / 100, ''r2'' \<mapsto> 80 / 100] =
     ([Labels 2, TruePositive 1, FalseNegative 1, Recall (1 / 2)], None)"
proof -
  let ?labels = "[(''r1'', JObject [(''is_correct'', JBool True)]),
                  (''r2'', JObject [(''is_correct'', JBool True)])]"
  let ?exp = "[''r1'' \<mapsto> 95 / 100, ''r2'' \<mapsto> 80 / (100::rat)]"
  have j: "joined ?labels ?exp"
    by (simp add: joined_def subscript_def equals_True_def)
  have tp: "true_positives ?labels ?exp = 1"
    by (simp add: true_positives_def label_correct_def subscript_def equals_True_def
        expectation_at_least_def)
  have fn: "false_negatives ?labels ?exp = 1"
    by (simp add: false_negatives_def label_correct_def subscript_def equals_True_def
        expectation_below_def)
  have p: "0 < true_positives ?labels ?exp + false_negatives ?labels ?exp"
    unfolding tp fn by simp
  show ?thesis
    using j compute_recall_counts [OF j p] unfolding tp fn by simp
qed

text \<open>
  Claim C2 as stated (recall 0 is output when no label is correct) fails: with one label
  that is not correct, the three counts are printed and the division raises
  ZeroDivisionError; no recall is printed.
\<close>

theorem compute_recall_zero_division_counterexample:
  "compute_recall [(''r1'', JObject [(''is_correct'', JBool False)])] Map.empty =
     ([Labels 1, TruePositive 0, FalseNegative 0], Some ZeroDivisionError)"
  by (simp add: compute_recall_def label_step_def bind_err_def subscript_def equals_True_def)

text \<open>
  Claim C2, as the code has it. When no label is correct, the evaluator prints the number
  of labels, zero true positives and zero false negatives, and then stops with
  ZeroDivisionError in \<open>positive_correct / float(tot_correct)\<close>, whatever the expectation
  table holds.
\<close>

theorem compute_recall_no_correct_label:
  assumes "no_label_correct labels"
  shows "compute_recall labels rid_exp =
           ([Labels (int (length labels)), TruePositive 0, FalseNegative 0],
            Some ZeroDivisionError)"
  using no_label_correct_counts [OF assms, of rid_exp]
  by (simp add: compute_recall_def label_loop_counts [OF no_label_correct_joined [OF assms]])

text \<open>Two labels, \<open>is_correct\<close> false and null.\<close>

theorem compute_recall_no_correct_label_witness:
  "no_label_correct [(''r1'', JObject [(''is_correct'', JBool False)]),
                     (''r2'', JObject [(''is_correct'', JNull)])] \<and>
   compute_recall [(''r1'', JObject [(''is_correct'', JBool False)]),
                   (''r2'', JObject [(''is_correct'', JNull)])]
                  [''r1'' \<mapsto> 95 / 100] =
     ([Labels 2, TruePositive 0, FalseNegative 0], Some ZeroDivisionError)"
proof -
  have n: "no_label_correct [(''r1'', JObject [(''is_correct'', JBool False)]),
                             (''r2'', JObject [(''is_correct'', JNull)])]"
    by (simp add: no_label_correct_def subscript_def equals_True_def)
  show ?thesis
    using n compute_recall_no_correct_label [OF n, of "[''r1'' \<mapsto> 95 / 100]"] by simp
qed

text \<open>
  Claim C10 as stated (the expectation table is consulted only for labels whose
  \<open>is_correct\<close> is exactly \<open>True\<close>) fails: line 21 compares with \<open>==\<close>, and the number 1 is
  equal to \<open>True\<close>. A label whose \<open>is_correct\<close> is 1 is looked up: without an expectation
  the run ends with KeyError, and with one it counts as a true positive.
\<close>

theorem label_equal_one_counterexample:
  "JInt 1 \<noteq> JBool True \<and>
   label_step Map.empty (''r1'', JObject [(''is_correct'', JInt 1)])
     \<lparr>positive_correct = 0, tot_correct = 0\<rparr> = Inl KeyError \<and>
   compute_recall [(''r1'', JObject [(''is_correct'', JInt 1)])] Map.empty = ([], Some KeyError) \<and>
   compute_recall [(''r1'', JObject [(''is_correct'', JInt 1)])] [''r1'' \<mapsto> 95 / 100] =
     ([Labels 1, TruePositive 1, FalseNegative 0, Recall 1], None)"
  by (simp add: compute_recall_def label_step_def bind_err_def subscript_def equals_True_def)

text \<open>
  Claim C10, as the code has it. A value is equal to \<open>True\<close> when it is \<open>True\<close>, the
  integer 1 or the float 1.0. For a label entry whose \<open>is_correct\<close> is not equal to
  \<open>True\<close>, the loop body leaves both counters as they are and succeeds whatever \<open>rid_exp\<close>
  holds (it is not consulted, so a missing key cannot raise); the run with the entry is
  the run without it, except that the printed number of labels is one higher.
\<close>

theorem label_not_True_skipped:
  assumes "subscript entry ''is_correct'' = Inr v" and "\<not> equals_True v"
  shows "equals_True v = (v = JBool True \<or> v = JInt 1 \<or> v = JFloat 1) \<and>
         label_step rid_exp (key, entry) c = Inr c \<and>
         label_loop rid_exp (pre @ (key, entry) # post) c = label_loop rid_exp (pre @ post) c \<and>
         compute_recall (pre @ (key, entry) # post) rid_exp =
           (map one_more_label (fst (compute_recall (pre @ post) rid_exp)),
            snd (compute_recall (pre @ post) rid_exp))"
proof -
  have eq: "equals_True v = (v = JBool True \<or> v = JInt 1 \<or> v = JFloat 1)"
    by (cases v) (simp_all add: equals_True_def)
  have step: "label_step rid_exp (key, entry) d = Inr d" for d
    by (rule label_step_not_True [OF assms])
  have loop: "label_loop rid_exp (pre @ (key, entry) # post) d = label_loop rid_exp (pre @ post) d" for d
    by (simp add: label_loop_append step split: sum.splits)
  have "compute_recall (pre @ (key, entry) # post) rid_exp =
           (map one_more_label (fst (compute_recall (pre @ post) rid_exp)),
            snd (compute_recall (pre @ post) rid_exp))"
    by (simp add: compute_recall_def loop Let_def split: sum.splits)
  with eq step loop show ?thesis by simp
qed

text \<open>A label whose \<open>is_correct\<close> is 0 and that has no expectation, after a correct one.\<close>

theorem label_not_True_skipped_witness:
  "subscript (JObject [(''is_correct'', JInt 0)]) ''is_correct'' = Inr (JInt 0) \<and>
   \<not> equals_True (JInt 0) \<and>
   label_step Map.empty (''r2'', JObject [(''is_correct'', JInt 0)])
     \<lparr>positive_correct = 1, tot_correct = 1\<rparr> = Inr \<lparr>positive_correct = 1, tot_correct = 1\<rparr> \<and>
   compute_recall [(''r1'', JObject [(''is_correct'', JBool True)]),
                   (''r2'', JObject [(''is_correct'', JInt 0)])]
                  [''r1'' \<mapsto> 95 / 100] =
     ([Labels 2, TruePositive 1, FalseNegative 0, Recall 1], None)"
proof -
  have s: "subscript (JObject [(''is_correct'', JInt 0)]) ''is_correct'' = Inr (JInt 0)"
    by (simp add: subscript_def)
  have t: "\<not> equals_True (JInt 0)"
    by (simp add: equals_True_def)
  have r: "compute_recall [(''r1'', JObject [(''is_correct'', JBool True)])] [''r1'' \<mapsto> 95 / 100] =
             ([Labels 1, TruePositive 1, FalseNegative 0, Recall 1], None)"
    by (simp add: compute_recall_def label_step_def bind_err_def subscript_def equals_True_def)
  show ?thesis
    using s t r
      label_not_True_skipped [OF s t, of Map.empty "''r2''" "\<lparr>positive_correct = 1, tot_correct = 1\<rparr>"]
      label_not_True_skipped [OF s t, of "[''r1'' \<mapsto> 95 / 100]" "''r2''" _
        "[(''r1'', JObject [(''is_correct'', JBool True)])]" "[]"]
    by simp
qed

section \<open>The relation feature extractor\<close>









lemma loop_vars_assigned: "(v :: loop_vars)\<lparr>features := x\<rparr> = \<lparr>features = x\<rparr>"
  by (cases v) simp




lemma fold_add: "fold (\<lambda>feature s. add s feature) xs acc = acc @ xs"
  by (induction xs arbitrary: acc) (simp_all add: add_def)

lemma inj_feature_line: "inj (feature_line rid)"
  by (simp add: inj_on_def feature_line_def)

lemma loop_body_features:
  "row_features dd row = Inr (rid, generated) \<Longrightarrow>
   loop_body dd iter row vars =
     Inr (vars\<lparr>features := generated\<rparr>, map (feature_line rid) (iter generated))"
  by (simp add: loop_body_def bind_err_def Let_def fold_add)

lemma loop_body_error:
  "row_features dd row = Inl e \<Longrightarrow> loop_body dd iter row vars = Inl e"
  by (simp add: loop_body_def bind_err_def)


text \<open>
  Claim C5. For every record that is processed, whatever order the set is iterated in:
  the printed lines are pairwise different, and they are the lines of a duplicate-free
  enumeration of the features generated, so a feature that the generator yields more
  than once is printed once.
\<close>

theorem emitted_features_distinct:
  assumes "set_order iter" and "loop_body dd iter row vars = Inr (vars', out)"
  shows "distinct out \<and>
         (\<exists>rid generated fs. row_features dd row = Inr (rid, generated) \<and>
            distinct fs \<and> set fs = set generated \<and> out = map (feature_line rid) fs)"
proof (cases "row_features dd row")
  case (Inl e)
  with assms(2) show ?thesis by (simp add: loop_body_error)
next
  case (Inr p)
  obtain rid generated where p: "p = (rid, generated)" by (cases p)
  have d: "distinct (iter generated)" and s: "set (iter generated) = set generated"
    using assms(1) by (simp_all add: set_order_def)
  have out: "out = map (feature_line rid) (iter generated)"
    using assms(2) Inr p by (simp add: loop_body_features)
  have "distinct out"
    using d by (simp add: out distinct_map inj_feature_line [THEN inj_on_subset])
  with Inr p d s out show ?thesis by blast
qed

text \<open>
  Claim C4. With the library and its dictionaries fixed, two executions of the loop body
  on the same row have the same outcome, whatever the rows before left in the variables
  and whatever orders the sets are iterated in: both raise the same exception, or both
  accumulate the same set of features and print the same set of lines.
\<close>

theorem features_independent_of_prior_rows:
  assumes "set_order iter1" and "set_order iter2"
  shows "same_outcome (loop_body dd iter1 row vars1) (loop_body dd iter2 row vars2)"
proof (cases "row_features dd row")
  case (Inl e)
  then show ?thesis by (simp add: loop_body_error same_outcome_def)
next
  case (Inr p)
  obtain rid generated where p: "p = (rid, generated)" by (cases p)
  have "set (iter1 generated) = set generated" "set (iter2 generated) = set generated"
    using assms by (simp_all add: set_order_def)
  with Inr p show ?thesis
    by (simp add: loop_body_features same_outcome_def)
qed


text \<open>The three example rows.\<close>

lemma example_row_features:
  "row_features ddlib_words example_row =
     Inr (''r1'', [''WORD_John'', ''WORD_married'', ''WORD_John''])"
  by code_simp

lemma example_row_body:
  "loop_body ddlib_words remdups example_row v =
     Inr (\<lparr>features = [''WORD_John'', ''WORD_married'', ''WORD_John'']\<rparr>,
          [feature_line ''r1'' ''WORD_married'', feature_line ''r1'' ''WORD_John''])"
  by (simp add: loop_body_features [OF example_row_features] loop_vars_assigned)





text \<open>The well-formed row, whose first and third words give the same feature.\<close>

theorem emitted_features_distinct_witness:
  "set_order (remdups :: string list \<Rightarrow> string list) \<and>
   loop_body ddlib_words remdups example_row \<lparr>features = []\<rparr> =
     Inr (\<lparr>features = [''WORD_John'', ''WORD_married'', ''WORD_John'']\<rparr>,
          [feature_line ''r1'' ''WORD_married'', feature_line ''r1'' ''WORD_John'']) \<and>
   distinct [feature_line ''r1'' ''WORD_married'', feature_line ''r1'' ''WORD_John'']"
proof -
  have h: "set_order (remdups :: string list \<Rightarrow> string list)" by (simp add: set_order_def)
  have e: "loop_body ddlib_words remdups example_row \<lparr>features = []\<rparr> =
     Inr (\<lparr>features = [''WORD_John'', ''WORD_married'', ''WORD_John'']\<rparr>,
          [feature_line ''r1'' ''WORD_married'', feature_line ''r1'' ''WORD_John''])"
    by (rule example_row_body)
  show ?thesis
    using h e emitted_features_distinct [OF h e] by (simp only: simp_thms)
qed

text \<open>The well-formed row under two iteration orders, from two different states.\<close>

theorem features_independent_of_prior_rows_witness:
  "set_order (remdups :: string list \<Rightarrow> string list) \<and>
   set_order (\<lambda>xs :: string list. rev (remdups xs)) \<and>
   same_outcome (loop_body ddlib_words remdups example_row \<lparr>features = []\<rparr>)
                (loop_body ddlib_words (\<lambda>xs. rev (remdups xs)) example_row \<lparr>features = [''WORD_Mary'']\<rparr>)"
proof -
  have h1: "set_order (remdups :: string list \<Rightarrow> string list)" by (simp add: set_order_def)
  have h2: "set_order (\<lambda>xs :: string list. rev (remdups xs))" by (simp add: set_order_def)
  show ?thesis
    using h1 h2
      features_independent_of_prior_rows [OF h1 h2, of ddlib_words example_row
        "\<lparr>features = []\<rparr>" "\<lparr>features = [''WORD_Mary'']\<rparr>"]
    by (simp only: simp_thms)
qed

section \<open>The Span Resolver and the Sentence Model Builder\<close>

text \<open>
  Claim C3. For every pair of span inputs, resolution fails with \<open>SpanOutOfRangeError\<close>
  whenever a begin offset plus length exceeds the number of tokens of the sentence, and
  with \<open>SpanEmptyError\<close> whenever a length is not strictly positive; for in-range inputs
  of positive length it succeeds, and the spans hold the offsets and lengths as given
  (nothing is clamped).
\<close>

theorem ResolveSpans_validates:
  "(int n < b1 + l1 \<or> int n < b2 + l2 \<longrightarrow> fails_with (ResolveSpans n b1 l1 b2 l2) SpanOutOfRangeError) \<and>
   (l1 \<le> 0 \<or> l2 \<le> 0 \<longrightarrow> fails_with (ResolveSpans n b1 l1 b2 l2) SpanEmptyError) \<and>
   (in_range n b1 l1 \<and> in_range n b2 l2 \<longrightarrow>
      ResolveSpans n b1 l1 b2 l2 =
        Inr (\<lparr>beginIndex = b1, spanLength = l1\<rparr>, \<lparr>beginIndex = b2, spanLength = l2\<rparr>))"
  by (auto simp: ResolveSpans_def span_violations_def fails_with_def in_range_def Let_def)

text \<open>A sentence of three tokens: boundary values on both sides.\<close>

theorem ResolveSpans_validates_witness:
  "fails_with (ResolveSpans 3 2 2 0 1) SpanOutOfRangeError \<and>
   fails_with (ResolveSpans 3 0 1 1 0) SpanEmptyError \<and>
   fails_with (ResolveSpans 3 4 0 0 1) SpanOutOfRangeError \<and>
   fails_with (ResolveSpans 3 4 0 0 1) SpanEmptyError \<and>
   ResolveSpans 3 0 1 2 1 =
     Inr (\<lparr>beginIndex = 0, spanLength = 1\<rparr>, \<lparr>beginIndex = 2, spanLength = 1\<rparr>)"
  using ResolveSpans_validates [of 3 2 2 0 1] ResolveSpans_validates [of 3 0 1 1 0]
    ResolveSpans_validates [of 3 4 0 0 1] ResolveSpans_validates [of 3 0 1 2 1]
  by (simp add: in_range_def)

text \<open>
  Claim C6. Sentence construction fails with \<open>MalformedInputError\<close> whenever a sequence
  is absent or the sequences do not all have the same length; for sequences of equal
  length \<open>N\<close> it succeeds, and the sentence has exactly \<open>N\<close> tokens, the fields of the
  token at each position being the entries of the inputs at that position.
\<close>

theorem BuildSentence_validates:
  "((ws = None \<or> ls = None \<or> ps = None \<or> ds = None \<or> ns = None \<or> hs1 = None \<or> hs2 = None) \<longrightarrow>
      BuildSentence ws ls ps ds ns hs1 hs2 = Inl MalformedInputError) \<and>
   ((length l \<noteq> length w \<or> length p \<noteq> length w \<or> length d \<noteq> length w \<or> length n \<noteq> length w \<or>
     length h1 \<noteq> length w \<or> length h2 \<noteq> length w) \<longrightarrow>
      BuildSentence (Some w) (Some l) (Some p) (Some d) (Some n) (Some h1) (Some h2) =
        Inl MalformedInputError) \<and>
   ((length l = length w \<and> length p = length w \<and> length d = length w \<and> length n = length w \<and>
     length h1 = length w \<and> length h2 = length w) \<longrightarrow>
      (\<exists>s. BuildSentence (Some w) (Some l) (Some p) (Some d) (Some n) (Some h1) (Some h2) = Inr s \<and>
           length s = length w \<and>
           (\<forall>i < length w. s ! i = \<lparr>tokenText = w ! i, tokenLemma = l ! i, partOfSpeech = p ! i,
                                      dependencyLabel = d ! i, namedEntityTag = n ! i,
                                      positionIndex = i\<rparr>)))"
proof (intro conjI impI)
  assume "ws = None \<or> ls = None \<or> ps = None \<or> ds = None \<or> ns = None \<or> hs1 = None \<or> hs2 = None"
  then show "BuildSentence ws ls ps ds ns hs1 hs2 = Inl MalformedInputError"
    by (auto simp: BuildSentence_def split: option.splits)
next
  assume "length l \<noteq> length w \<or> length p \<noteq> length w \<or> length d \<noteq> length w \<or> length n \<noteq> length w \<or>
     length h1 \<noteq> length w \<or> length h2 \<noteq> length w"
  then show "BuildSentence (Some w) (Some l) (Some p) (Some d) (Some n) (Some h1) (Some h2) =
        Inl MalformedInputError"
    by (auto simp: BuildSentence_def)
next
  assume "length l = length w \<and> length p = length w \<and> length d = length w \<and> length n = length w \<and>
     length h1 = length w \<and> length h2 = length w"
  then show "\<exists>s. BuildSentence (Some w) (Some l) (Some p) (Some d) (Some n) (Some h1) (Some h2) = Inr s \<and>
           length s = length w \<and>
           (\<forall>i < length w. s ! i = \<lparr>tokenText = w ! i, tokenLemma = l ! i, partOfSpeech = p ! i,
                                      dependencyLabel = d ! i, namedEntityTag = n ! i,
                                      positionIndex = i\<rparr>)"
    by (simp add: BuildSentence_def)
qed

text \<open>An absent sequence, a sequence that is too short, and two tokens built.\<close>

theorem BuildSentence_validates_witness:
  "BuildSentence (Some [''John'', ''married'', ''Mary'']) None (Some [''NNP'', ''VBD'', ''NNP''])
     (Some [''nsubj'', ''root'', ''dobj'']) (Some [''PERSON'', ''O'', ''PERSON''])
     (Some [0, 0, 0]) (Some [0, 0, 0]) = Inl MalformedInputError \<and>
   BuildSentence (Some [''John'', ''married'', ''Mary'']) (Some [''John'', ''marry''])
     (Some [''NNP'', ''VBD'', ''NNP'']) (Some [''nsubj'', ''root'', ''dobj''])
     (Some [''PERSON'', ''O'', ''PERSON'']) (Some [0, 0, 0]) (Some [0, 0, 0]) =
       Inl MalformedInputError \<and>
   (\<exists>s. BuildSentence (Some [''John'', ''married'']) (Some [''John'', ''marry''])
          (Some [''NNP'', ''VBD'']) (Some [''nsubj'', ''root''])
          (Some [''PERSON'', ''O'']) (Some [0, 0]) (Some [0, 0]) = Inr s \<and>
        length s = 2 \<and>
        s ! 1 = \<lparr>tokenText = ''married'', tokenLemma = ''marry'', partOfSpeech = ''VBD'',
                  dependencyLabel = ''root'', namedEntityTag = ''O'', positionIndex = 1\<rparr>)"
proof -
  have a: "BuildSentence (Some [''John'', ''married'', ''Mary'']) None (Some [''NNP'', ''VBD'', ''NNP''])
     (Some [''nsubj'', ''root'', ''dobj'']) (Some [''PERSON'', ''O'', ''PERSON''])
     (Some [0, 0, 0]) (Some [0, 0, 0]) = Inl MalformedInputError"
    using BuildSentence_validates [of "Some [''John'', ''married'', ''Mary'']" None] by simp
  have b: "BuildSentence (Some [''John'', ''married'', ''Mary'']) (Some [''John'', ''marry''])
     (Some [''NNP'', ''VBD'', ''NNP'']) (Some [''nsubj'', ''root'', ''dobj''])
     (Some [''PERSON'', ''O'', ''PERSON'']) (Some [0, 0, 0]) (Some [0, 0, 0]) =
       Inl MalformedInputError"
    using BuildSentence_validates [of None None None None None None None
        "[''John'', ''marry'']" "[''John'', ''married'', ''Mary'']"
        "[''NNP'', ''VBD'', ''NNP'']" "[''nsubj'', ''root'', ''dobj'']" "[''PERSON'', ''O'', ''PERSON'']"
        "[0, 0, 0]" "[0, 0, 0]"]
    by simp
  have c: "\<exists>s. BuildSentence (Some [''John'', ''married'']) (Some [''John'', ''marry''])
          (Some [''NNP'', ''VBD'']) (Some [''nsubj'', ''root''])
          (Some [''PERSON'', ''O'']) (Some [0, 0]) (Some [0, 0]) = Inr s \<and>
        length s = 2 \<and>
        s ! 1 = \<lparr>tokenText = ''married'', tokenLemma = ''marry'', partOfSpeech = ''VBD'',
                  dependencyLabel = ''root'', namedEntityTag = ''O'', positionIndex = 1\<rparr>"
  proof -
    from BuildSentence_validates [of None None None None None None None
        "[''John'', ''marry'']" "[''John'', ''married'']"
        "[''NNP'', ''VBD'']" "[''nsubj'', ''root'']" "[''PERSON'', ''O'']" "[0, 0]" "[0, 0]"]
    obtain s where s: "BuildSentence (Some [''John'', ''married'']) (Some [''John'', ''marry''])
          (Some [''NNP'', ''VBD'']) (Some [''nsubj'', ''root''])
          (Some [''PERSON'', ''O'']) (Some [0, 0]) (Some [0, 0]) = Inr s"
      and n: "length s = 2"
      and t: "\<forall>i<2. s ! i = \<lparr>tokenText = [''John'', ''married''] ! i,
                     tokenLemma = [''John'', ''marry''] ! i,
                     partOfSpeech = [''NNP'', ''VBD''] ! i,
                     dependencyLabel = [''nsubj'', ''root''] ! i,
                     namedEntityTag = [''PERSON'', ''O''] ! i,
                     positionIndex = i\<rparr>"
      by auto
    from t have "s ! 1 = \<lparr>tokenText = ''married'', tokenLemma = ''marry'', partOfSpeech = ''VBD'',
                  dependencyLabel = ''root'', namedEntityTag = ''O'', positionIndex = 1\<rparr>"
      by simp
    with s n show ?thesis by blast
  qed
  show ?thesis by (intro conjI a b c)
qed

end
